theory Spec2Isabelle
  imports Main "HOL-Library.Code_Target_Nat"
begin

section \<open>JavaScript values\<close>

text \<open>
  The data handled by \<^verbatim>\<open>index.js\<close> is what \<^verbatim>\<open>js-yaml\<close> (safe schema) and the config
  server return: null, booleans, numbers, strings, plain objects and arrays. An array is an
  object whose own enumerable properties are its indices (a hole is a missing index), so
  plain objects and arrays share one constructor and differ by their kind. A value that may
  be \<^verbatim>\<open>undefined\<close> (a missing property, an empty YAML document) is a \<open>jsval option\<close>, with
  \<open>None\<close> for \<^verbatim>\<open>undefined\<close>; a property that exists never holds \<^verbatim>\<open>undefined\<close>.
  Numbers are only tested for truthiness by the code and are modelled as integers. The key
  \<^verbatim>\<open>__proto__\<close>, which names the prototype and not a property, is not modelled.
\<close>

datatype okind = PlainObject | ArrayObject

datatype jsval =
    JNull
  | JBool bool
  | JNum int
  | JStr string
  | JObj okind "(string \<times> jsval) list"

type_synonym props = "(string \<times> jsval) list"

text \<open>JavaScript truthiness, as used by \<^verbatim>\<open>if (x)\<close>, \<^verbatim>\<open>!x\<close>, \<^verbatim>\<open>&&\<close> and \<^verbatim>\<open>||\<close>.\<close>

fun truthy :: "jsval \<Rightarrow> bool" where
  "truthy JNull = False"
| "truthy (JBool b) = b"
| "truthy (JNum n) = (n \<noteq> 0)"
| "truthy (JStr s) = (s \<noteq> [])"
| "truthy (JObj k ps) = True"

fun truthy_opt :: "jsval option \<Rightarrow> bool" where
  "truthy_opt None = False"
| "truthy_opt (Some v) = truthy v"

subsection \<open>Property keys and their enumeration order\<close>

text \<open>
  The own properties of an object are enumerated (\<^verbatim>\<open>for ... in\<close>) with the array indices
  first, in ascending numeric order, and then the other string keys in insertion order.
  An array index is the canonical decimal form of a number below \<open>2^32 - 1\<close>.
\<close>

definition is_digit :: "char \<Rightarrow> bool" where
  "is_digit c = (c \<in> set ''0123456789'')"

definition digit_val :: "char \<Rightarrow> nat" where
  "digit_val c = of_char c - 48"

definition array_index :: "string \<Rightarrow> nat option" where
  "array_index k =
     (let n = foldl (\<lambda>a c. 10 * a + digit_val c) 0 k
      in if k \<noteq> [] \<and> list_all is_digit k \<and> (k = ''0'' \<or> hd k \<noteq> CHR ''0'') \<and> n < 2 ^ 32 - 1
         then Some n else None)"

fun update_existing :: "props \<Rightarrow> string \<Rightarrow> jsval \<Rightarrow> props" where
  "update_existing [] k v = []"
| "update_existing ((k', v') # ps) k v =
     (if k' = k then (k, v) # ps else (k', v') # update_existing ps k v)"

fun insert_index :: "nat \<Rightarrow> string \<Rightarrow> jsval \<Rightarrow> props \<Rightarrow> props" where
  "insert_index n k v [] = [(k, v)]"
| "insert_index n k v ((k', v') # ps) =
     (case array_index k' of
        Some m \<Rightarrow> if m < n then (k', v') # insert_index n k v ps else (k, v) # (k', v') # ps
      | None \<Rightarrow> (k, v) # (k', v') # ps)"

text \<open>\<^verbatim>\<open>obj[k] = v\<close> on an object with own properties \<open>ps\<close>.\<close>

definition set_prop :: "props \<Rightarrow> string \<Rightarrow> jsval \<Rightarrow> props" where
  "set_prop ps k v =
     (if map_of ps k \<noteq> None then update_existing ps k v
      else (case array_index k of
              None \<Rightarrow> ps @ [(k, v)]
            | Some n \<Rightarrow> insert_index n k v ps))"

text \<open>The decimal digit \<open>n\<close>, for \<open>n < 10\<close>, and the decimal form of a number.\<close>

definition digit_char :: "nat \<Rightarrow> char" where
  "digit_char n = ''0123456789'' ! n"

fun dec_string :: "nat \<Rightarrow> string" where
  "dec_string n = (if n < 10 then [digit_char n] else dec_string (n div 10) @ [digit_char (n mod 10)])"

declare dec_string.simps [simp del]

text \<open>
  The properties a \<^verbatim>\<open>for ... in\<close> loop visits, with their values: the own properties of an
  object or array, the characters of a string under their indices, nothing for the other
  primitives.
\<close>

fun enum_props :: "jsval \<Rightarrow> props" where
  "enum_props (JObj k ps) = ps"
| "enum_props (JStr s) = map (\<lambda>i. (dec_string i, JStr [s ! i])) [0..<length s]"
| "enum_props v = []"

text \<open>
  \<^verbatim>\<open>v.name\<close> for a \<open>v\<close> that is neither null nor undefined. The code reads only the names
  \<^verbatim>\<open>profiles\<close>, \<^verbatim>\<open>spring\<close>, \<^verbatim>\<open>cloud\<close>, \<^verbatim>\<open>config\<close>, \<^verbatim>\<open>enabled\<close> and \<^verbatim>\<open>name\<close>, which no
  primitive and no prototype defines.
\<close>

fun get_prop :: "jsval \<Rightarrow> string \<Rightarrow> jsval option" where
  "get_prop (JObj k ps) name = map_of ps name"
| "get_prop v name = None"

text \<open>\<^verbatim>\<open>x && x.name\<close>, up to truthiness: the member when \<open>x\<close> is truthy, nothing otherwise.\<close>

fun and_member :: "jsval option \<Rightarrow> string \<Rightarrow> jsval option" where
  "and_member None name = None"
| "and_member (Some v) name = (if truthy v then get_prop v name else None)"

section \<open>The \<^verbatim>\<open>extend\<close> library, deep mode\<close>

text \<open>
  Modelled from the spec: the npm package \<^verbatim>\<open>extend\<close> (version 3), which \<^verbatim>\<open>index.js\<close>
  calls as \<^verbatim>\<open>extend(true, target, options)\<close> for every merge, is not among the sources.
  Section 4.1 of the spec gives its deep mode: for each enumerable property \<^verbatim>\<open>name\<close> of
  \<^verbatim>\<open>options\<close> with value \<^verbatim>\<open>copy\<close>, a \<^verbatim>\<open>copy\<close> that is a plain object is merged recursively
  into the target's value at \<^verbatim>\<open>name\<close> if that is a plain object too, and into a new empty
  object otherwise (the package never stores the object of \<^verbatim>\<open>options\<close> itself); any other
  \<^verbatim>\<open>copy\<close> overwrites. An array is treated as the package treats it, in the same way as a
  plain object: merged by index into the array the target holds, or into a new empty array.
  \<open>extend_deep target ps\<close> is the loop over the properties \<open>ps\<close> of \<^verbatim>\<open>options\<close>.
\<close>

fun clone_of :: "okind \<Rightarrow> jsval option \<Rightarrow> props" where
  "clone_of k (Some (JObj k' ps)) = (if k' = k then ps else [])"
| "clone_of k src = []"

function extend_deep :: "props \<Rightarrow> props \<Rightarrow> props" where
  "extend_deep target [] = target"
| "extend_deep target ((name, JObj k cps) # rest) =
     extend_deep (set_prop target name (JObj k (extend_deep (clone_of k (map_of target name)) cps))) rest"
| "extend_deep target ((name, JNull) # rest) = extend_deep (set_prop target name JNull) rest"
| "extend_deep target ((name, JBool b) # rest) = extend_deep (set_prop target name (JBool b)) rest"
| "extend_deep target ((name, JNum n) # rest) = extend_deep (set_prop target name (JNum n)) rest"
| "extend_deep target ((name, JStr s) # rest) = extend_deep (set_prop target name (JStr s)) rest"
  by pat_completeness auto
termination
  by (relation "measure (\<lambda>(t, ps). size_list (size_prod (\<lambda>_. 0) size) ps)") auto

text \<open>\<^verbatim>\<open>extend(true, target, options)\<close>: a null or undefined \<^verbatim>\<open>options\<close> is skipped.\<close>

fun extend_true :: "props \<Rightarrow> jsval option \<Rightarrow> props" where
  "extend_true target None = target"
| "extend_true target (Some JNull) = target"
| "extend_true target (Some v) = extend_deep target (enum_props v)"

section \<open>PropertyTree merger\<close>

text \<open>\<^verbatim>\<open>_mergeProperties(objects)\<close>: the loop extends a new empty object by each input in turn.\<close>

fun mergeProperties_loop :: "props \<Rightarrow> jsval option list \<Rightarrow> props" where
  "mergeProperties_loop mergedConfig [] = mergedConfig"
| "mergeProperties_loop mergedConfig (obj # objects) =
     mergeProperties_loop (extend_true mergedConfig obj) objects"

definition mergeProperties :: "jsval option list \<Rightarrow> jsval" where
  "mergeProperties objects = JObj PlainObject (mergeProperties_loop [] objects)"

text \<open>
  \<^verbatim>\<open>String.prototype.split\<close> with a one-character separator: the empty string gives one
  empty piece, and a separator at either end gives an empty piece there.
\<close>

fun split_on :: "char \<Rightarrow> string \<Rightarrow> string list" where
  "split_on c [] = [[]]"
| "split_on c (x # xs) =
     (if x = c then [] # split_on c xs
      else (case split_on c xs of t # ts \<Rightarrow> (x # t) # ts | [] \<Rightarrow> [[x]]))"

text \<open>\<^verbatim>\<open>_createObjectForProperty(propertyKeys, propertyValue)\<close>.\<close>

fun createObjectForProperty :: "string list \<Rightarrow> jsval \<Rightarrow> jsval" where
  "createObjectForProperty [] propertyValue = propertyValue"
| "createObjectForProperty (thisPropertyName # propertyKeys) propertyValue =
     JObj PlainObject (set_prop [] thisPropertyName (createObjectForProperty propertyKeys propertyValue))"

text \<open>\<^verbatim>\<open>_parsePropertiesToObjects(propertiesObject)\<close>: the loop over the enumerable properties.\<close>

fun parseProperties_loop :: "props \<Rightarrow> props \<Rightarrow> props" where
  "parseProperties_loop object [] = object"
| "parseProperties_loop object ((thisPropertyName, v) # rest) =
     parseProperties_loop
       (extend_true object (Some (createObjectForProperty (split_on CHR ''.'' thisPropertyName) v))) rest"

definition parsePropertiesToObjects :: "jsval option \<Rightarrow> jsval" where
  "parsePropertiesToObjects propertiesObject =
     JObj PlainObject
       (case propertiesObject of
          None \<Rightarrow> []
        | Some p \<Rightarrow> if truthy p then parseProperties_loop [] (enum_props p) else [])"

section \<open>Profile filter\<close>

datatype error =
    InvalidOptions
  | TypeError
  | SourceUnavailable string
  | ParseError string
  | RemoteFetchError string

text \<open>
  The loop of \<^verbatim>\<open>_shouldUseDocument\<close> over the tokens of \<^verbatim>\<open>document.profiles\<close>, with the
  flag \<^verbatim>\<open>useThisDoc\<close>; the \<^verbatim>\<open>return false\<close> inside the loop ends it.
\<close>

fun shouldUseDocument_loop :: "string list \<Rightarrow> string list \<Rightarrow> bool \<Rightarrow> bool" where
  "shouldUseDocument_loop [] activeProfiles useThisDoc = useThisDoc"
| "shouldUseDocument_loop (t # ts) activeProfiles useThisDoc =
     (if t \<noteq> [] then
        (if hd t = CHR ''!'' then
           (if tl t \<in> set activeProfiles then False
            else shouldUseDocument_loop ts activeProfiles useThisDoc)
         else if t \<in> set activeProfiles then shouldUseDocument_loop ts activeProfiles True
         else shouldUseDocument_loop ts activeProfiles useThisDoc)
      else shouldUseDocument_loop ts activeProfiles useThisDoc)"

text \<open>
  \<^verbatim>\<open>_shouldUseDocument(document, activeProfiles)\<close>. A truthy \<^verbatim>\<open>profiles\<close> that is not a
  string has no \<^verbatim>\<open>split\<close> method, and the call throws a TypeError.
\<close>

definition shouldUseDocument :: "jsval option \<Rightarrow> string list option \<Rightarrow> error + bool" where
  "shouldUseDocument document activeProfiles =
     (if truthy_opt document \<and> \<not> truthy_opt (and_member document ''profiles'') then Inr True
      else if truthy_opt document then
        (case activeProfiles of
           None \<Rightarrow> Inr False
         | Some profiles \<Rightarrow>
             (case and_member document ''profiles'' of
                Some (JStr p) \<Rightarrow> Inr (shouldUseDocument_loop (split_on CHR '','' p) profiles False)
              | _ \<Rightarrow> Inl TypeError))
      else Inr False)"

section \<open>Collaborators and the configuration instance\<close>

text \<open>
  The file system, the YAML parser and the config-server client are outside the repository;
  they are parameters of the model. \<^verbatim>\<open>safeLoadAll\<close> parses the whole text before it hands
  the documents to the callback, so it returns the list of documents or the error it throws.
  \<^verbatim>\<open>cloudConfigClient.load\<close> throws, or returns a promise that rejects or resolves; the
  resolved value is falsy (\<open>None\<close>) or the sequence of key/value pairs that its
  \<^verbatim>\<open>forEach\<close> passes to the callback.
\<close>

datatype cloud_outcome =
    CloudThrows error
  | CloudRejects error
  | CloudResolves "(string \<times> jsval) list option"

record env =
  readFileSync :: "string \<Rightarrow> error + string"
  existsSync :: "string \<Rightarrow> bool"
  safeLoadAll :: "string \<Rightarrow> error + jsval option list"
  safeLoad :: "string \<Rightarrow> error + jsval option"
  cloudConfigClient_load :: "jsval \<Rightarrow> cloud_outcome"

text \<open>The file and network operations a computation performs, in order.\<close>

datatype io_op = ReadFile string | Exists string | CloudLoad jsval

record options =
  o_configPath :: "string option"
  o_activeProfiles :: "string list option"
  o_bootstrapPath :: "string option"
  o_level :: "string option"

text \<open>
  Modelled from the spec: the module \<^verbatim>\<open>config-events\<close>, which names the two events, is not
  among the sources. Section 6 of the spec has the refresh notification, which carries a
  PropertySet, and the error notification, which carries an error.
\<close>

datatype event = CONFIG_REFRESH_EVENT jsval | CONFIG_ERROR_EVENT error

record watch_config =
  w_interval :: nat
  w_running :: bool
  w_timerId :: "nat option"

text \<open>
  The fields of a \<^verbatim>\<open>SpringCloudConfig\<close> instance, followed by what the instance does to its
  surroundings: the pending timers (identifier and delay), the next timer identifier, the
  events emitted and the file and network operations performed.
\<close>

record scc =
  opts :: options
  remoteConfig :: "jsval option"
  localConfig :: "jsval option"
  bootstrapConfig :: "jsval option"
  config :: "jsval option"
  watchConfig :: watch_config
  timers :: "(nat \<times> nat) list"
  next_timer :: nat
  emitted :: "event list"
  io_log :: "io_op list"

definition constructor :: "options \<Rightarrow> scc" where
  "constructor options =
     \<lparr> opts = options, remoteConfig = None, localConfig = None, bootstrapConfig = None,
       config = None,
       watchConfig = \<lparr> w_interval = 60000, w_running = False, w_timerId = None \<rparr>,
       timers = [], next_timer = 1, emitted = [], io_log = [] \<rparr>"

definition setOptions :: "options \<Rightarrow> scc \<Rightarrow> scc" where
  "setOptions options s = s\<lparr>opts := options\<rparr>"

definition getConfig :: "scc \<Rightarrow> jsval option" where
  "getConfig s = config s"

section \<open>Document loader\<close>

text \<open>The callback of \<^verbatim>\<open>safeLoadAll\<close> in \<^verbatim>\<open>_readYaml\<close>, run on each document in turn.\<close>

fun readYaml_loop :: "props \<Rightarrow> jsval option list \<Rightarrow> string list option \<Rightarrow> error + props" where
  "readYaml_loop doc [] activeProfiles = Inr doc"
| "readYaml_loop doc (thisDoc # rest) activeProfiles =
     (case shouldUseDocument thisDoc activeProfiles of
        Inl e \<Rightarrow> Inl e
      | Inr use \<Rightarrow> readYaml_loop (if use then extend_true doc thisDoc else doc) rest activeProfiles)"

text \<open>\<^verbatim>\<open>_readYaml(relativePath, activeProfiles)\<close>: the promise's outcome and the operations.\<close>

definition readYaml :: "env \<Rightarrow> string \<Rightarrow> string list option \<Rightarrow> (error + jsval) \<times> io_op list" where
  "readYaml E relativePath activeProfiles =
     (case readFileSync E relativePath of
        Inl e \<Rightarrow> Inl e
      | Inr text \<Rightarrow>
          (case safeLoadAll E text of
             Inl e \<Rightarrow> Inl e
           | Inr docs \<Rightarrow>
               (case readYaml_loop [] docs activeProfiles of
                  Inl e \<Rightarrow> Inl e
                | Inr doc \<Rightarrow> Inr (JObj PlainObject doc))),
      [ReadFile relativePath])"

text \<open>\<^verbatim>\<open>_readYamlAsDocument(relativePath, activeProfiles)\<close>.\<close>

definition readYamlAsDocument ::
  "env \<Rightarrow> string \<Rightarrow> string list option \<Rightarrow> (error + jsval) \<times> io_op list" where
  "readYamlAsDocument E relativePath activeProfiles =
     (case readYaml E relativePath activeProfiles of
        (Inl e, ops) \<Rightarrow> (Inl e, ops)
      | (Inr yamlDoc, ops) \<Rightarrow> (Inr (parsePropertiesToObjects (Some yamlDoc)), ops))"

text \<open>
  The body of the \<^verbatim>\<open>forEach\<close> in \<^verbatim>\<open>_readApplicationConfig\<close> for one profile: the overlay
  documents pushed (none or one) and the operations. An overlay that cannot be read or
  parsed is logged and skipped.
\<close>

definition readProfileYaml :: "env \<Rightarrow> string \<Rightarrow> string \<Rightarrow> jsval list \<times> io_op list" where
  "readProfileYaml E appConfigPath activeProfile =
     (let profileSpecificYaml = ''application-'' @ activeProfile @ ''.yml'';
          profileSpecificYamlPath = appConfigPath @ ''/'' @ profileSpecificYaml
      in if existsSync E profileSpecificYamlPath then
           (case readFileSync E profileSpecificYamlPath of
              Inl e \<Rightarrow> []
            | Inr text \<Rightarrow>
                (case safeLoad E text of
                   Inl e \<Rightarrow> []
                 | Inr propDoc \<Rightarrow> [parsePropertiesToObjects propDoc]),
            [Exists profileSpecificYamlPath, ReadFile profileSpecificYamlPath])
         else ([], [Exists profileSpecificYamlPath]))"

fun readProfileYamls :: "env \<Rightarrow> string \<Rightarrow> string list \<Rightarrow> jsval list \<times> io_op list" where
  "readProfileYamls E appConfigPath [] = ([], [])"
| "readProfileYamls E appConfigPath (activeProfile # rest) =
     (let (docs, ops) = readProfileYaml E appConfigPath activeProfile;
          (docs', ops') = readProfileYamls E appConfigPath rest
      in (docs @ docs', ops @ ops'))"

text \<open>
  \<^verbatim>\<open>_readApplicationConfig(appConfigPath, activeProfiles)\<close>. With \<^verbatim>\<open>activeProfiles\<close>
  undefined, \<^verbatim>\<open>activeProfiles.forEach\<close> throws a TypeError.
\<close>

definition readApplicationConfig ::
  "env \<Rightarrow> string \<Rightarrow> string list option \<Rightarrow> (error + jsval) \<times> io_op list" where
  "readApplicationConfig E appConfigPath activeProfiles =
     (case readYamlAsDocument E (appConfigPath @ ''/application.yml'') activeProfiles of
        (Inl e, ops) \<Rightarrow> (Inl e, ops)
      | (Inr applicationConfig, ops) \<Rightarrow>
          (case activeProfiles of
             None \<Rightarrow> (Inl TypeError, ops)
           | Some profiles \<Rightarrow>
               (let (docs, ops') = readProfileYamls E appConfigPath profiles
                in (Inr (mergeProperties (map Some (applicationConfig # docs))), ops @ ops'))))"

section \<open>Resolution pipeline\<close>

text \<open>
  \<^verbatim>\<open>target.n1. ... .nk.p = v\<close>, evaluated in strict mode (class bodies are strict): reading
  a member of null or undefined throws a TypeError, and so does the assignment when the
  value reached is null, undefined or a primitive. On success the result is \<open>target\<close> with
  the object reached updated. Assigning \<^verbatim>\<open>undefined\<close> (\<open>None\<close>) leaves a property that reads
  as undefined, which no later step tells from a missing one.
\<close>

fun assign_at :: "jsval option \<Rightarrow> string list \<Rightarrow> string \<Rightarrow> jsval option \<Rightarrow> error + jsval" where
  "assign_at (Some (JObj k ps)) [] p v =
     Inr (JObj k (case v of None \<Rightarrow> filter (\<lambda>kv. fst kv \<noteq> p) ps | Some x \<Rightarrow> set_prop ps p x))"
| "assign_at target [] p v = Inl TypeError"
| "assign_at (Some (JObj k ps)) (n # ns) p v =
     (case assign_at (map_of ps n) ns p v of
        Inl e \<Rightarrow> Inl e
      | Inr x \<Rightarrow> Inr (JObj k (update_existing ps n x)))"
| "assign_at target (n # ns) p v = Inl TypeError"

text \<open>A JavaScript array of strings, such as \<^verbatim>\<open>activeProfiles\<close>, as a value.\<close>

definition array_of_strings :: "string list \<Rightarrow> jsval" where
  "array_of_strings xs = JObj ArrayObject (zip (map dec_string [0..<length xs]) (map JStr xs))"

text \<open>
  \<^verbatim>\<open>_readCloudConfig(bootStrapConfig)\<close>. The promise rejects only when reading
  \<^verbatim>\<open>bootStrapConfig.spring.cloud.config.enabled\<close> throws; a client that throws or rejects
  resolves it with the empty object. The errors a failing client hands over are Error
  objects, whose \<^verbatim>\<open>message\<close> the handlers can read.
\<close>

fun member :: "jsval option \<Rightarrow> string \<Rightarrow> error + jsval option" where
  "member None name = Inl TypeError"
| "member (Some JNull) name = Inl TypeError"
| "member (Some v) name = Inr (get_prop v name)"

definition spring_cloud_config :: "jsval option \<Rightarrow> error + jsval option" where
  "spring_cloud_config b =
     (case member b ''spring'' of
        Inl e \<Rightarrow> Inl e
      | Inr spring \<Rightarrow>
          (case member spring ''cloud'' of
             Inl e \<Rightarrow> Inl e
           | Inr cloud \<Rightarrow> member cloud ''config''))"

fun assign_all :: "props \<Rightarrow> (string \<times> jsval) list \<Rightarrow> props" where
  "assign_all cloudConfig [] = cloudConfig"
| "assign_all cloudConfig ((key, v) # rest) = assign_all (set_prop cloudConfig key v) rest"

definition readCloudConfig :: "env \<Rightarrow> jsval option \<Rightarrow> (error + jsval) \<times> io_op list" where
  "readCloudConfig E bootStrapConfig =
     (case spring_cloud_config bootStrapConfig of
        Inl e \<Rightarrow> (Inl e, [])
      | Inr None \<Rightarrow> (Inl TypeError, [])
      | Inr (Some JNull) \<Rightarrow> (Inl TypeError, [])
      | Inr (Some cfg) \<Rightarrow>
          (if truthy_opt (get_prop cfg ''enabled'') then
             (case cloudConfigClient_load E cfg of
                CloudThrows e \<Rightarrow> Inr (JObj PlainObject [])
              | CloudRejects e \<Rightarrow> Inr (JObj PlainObject [])
              | CloudResolves None \<Rightarrow> Inr (JObj PlainObject [])
              | CloudResolves (Some cloudConfigProperties) \<Rightarrow>
                  Inr (parsePropertiesToObjects
                         (Some (JObj PlainObject (assign_all [] cloudConfigProperties)))),
              [CloudLoad cfg])
           else (Inr (JObj PlainObject []), [])))"

text \<open>\<^verbatim>\<open>_generateConfig()\<close>.\<close>

definition generateConfig :: "scc \<Rightarrow> scc" where
  "generateConfig s =
     s\<lparr>config := Some (mergeProperties [bootstrapConfig s, localConfig s, remoteConfig s])\<rparr>"

text \<open>A path or \<^verbatim>\<open>undefined\<close> in a string concatenation.\<close>

fun path_string :: "string option \<Rightarrow> string" where
  "path_string None = ''undefined''"
| "path_string (Some p) = p"

fun truthy_string :: "string option \<Rightarrow> bool" where
  "truthy_string None = False"
| "truthy_string (Some p) = (p \<noteq> [])"

text \<open>
  The four callbacks chained in \<^verbatim>\<open>_readConfig\<close>, each returning the rejection or nothing
  together with the instance as it leaves it.
\<close>

definition theBootstrapPath :: "options \<Rightarrow> string option" where
  "theBootstrapPath options =
     (if truthy_string (o_bootstrapPath options) then o_bootstrapPath options
      else o_configPath options)"

definition bootstrap_stage :: "env \<Rightarrow> scc \<Rightarrow> (error + unit) \<times> scc" where
  "bootstrap_stage E s =
     (case readYamlAsDocument E (path_string (theBootstrapPath (opts s)) @ ''/bootstrap.yml'')
             (o_activeProfiles (opts s)) of
        (Inl e, ops) \<Rightarrow> (Inl e, s\<lparr>io_log := io_log s @ ops\<rparr>)
      | (Inr thisBootstrapConfig, ops) \<Rightarrow>
          (case assign_at (Some thisBootstrapConfig) [''spring'', ''cloud'', ''config'']
                  ''profiles'' (map_option array_of_strings (o_activeProfiles (opts s))) of
             Inl e \<Rightarrow> (Inl e, s\<lparr>io_log := io_log s @ ops\<rparr>)
           | Inr b \<Rightarrow> (Inr (), s\<lparr>bootstrapConfig := Some b, io_log := io_log s @ ops\<rparr>)))"

definition local_stage :: "env \<Rightarrow> scc \<Rightarrow> (error + unit) \<times> scc" where
  "local_stage E s =
     (case readApplicationConfig E (path_string (o_configPath (opts s)))
             (o_activeProfiles (opts s)) of
        (Inl e, ops) \<Rightarrow> (Inl e, s\<lparr>io_log := io_log s @ ops\<rparr>)
      | (Inr applicationConfig, ops) \<Rightarrow>
          (let s1 = s\<lparr>localConfig := Some applicationConfig, io_log := io_log s @ ops\<rparr>;
               name = and_member (and_member (and_member (get_prop applicationConfig ''spring'')
                        ''cloud'') ''config'') ''name''
           in if truthy_opt name then
                (case assign_at (bootstrapConfig s1) [''spring'', ''cloud'', ''config'']
                        ''name'' name of
                   Inl e \<Rightarrow> (Inl e, s1)
                 | Inr b \<Rightarrow> (Inr (), s1\<lparr>bootstrapConfig := Some b\<rparr>))
              else (Inr (), s1)))"

definition remote_stage :: "env \<Rightarrow> scc \<Rightarrow> (error + unit) \<times> scc" where
  "remote_stage E s =
     (case readCloudConfig E (bootstrapConfig s) of
        (Inl e, ops) \<Rightarrow> (Inl e, s\<lparr>io_log := io_log s @ ops\<rparr>)
      | (Inr cloudConfig, ops) \<Rightarrow>
          (Inr (), s\<lparr>remoteConfig := Some cloudConfig, io_log := io_log s @ ops\<rparr>))"

definition compose_stage :: "scc \<Rightarrow> (error + jsval option) \<times> scc" where
  "compose_stage s = (let s' = generateConfig s in (Inr (config s'), s'))"

text \<open>\<^verbatim>\<open>_readConfig()\<close>: the outcome of the promise and the instance afterwards.\<close>

definition readConfig :: "env \<Rightarrow> scc \<Rightarrow> (error + jsval option) \<times> scc" where
  "readConfig E s =
     (case bootstrap_stage E s of
        (Inl e, s1) \<Rightarrow> (Inl e, s1)
      | (Inr u, s1) \<Rightarrow>
          (case local_stage E s1 of
             (Inl e, s2) \<Rightarrow> (Inl e, s2)
           | (Inr u, s2) \<Rightarrow>
               (case remote_stage E s2 of
                  (Inl e, s3) \<Rightarrow> (Inl e, s3)
                | (Inr u, s3) \<Rightarrow> compose_stage s3)))"

text \<open>\<^verbatim>\<open>load()\<close>. An array is truthy even when empty; an empty string is not.\<close>

definition load :: "env \<Rightarrow> scc \<Rightarrow> (error + jsval option) \<times> scc" where
  "load E s =
     (if \<not> (truthy_string (o_configPath (opts s)) \<and> o_activeProfiles (opts s) \<noteq> None)
      then (Inl InvalidOptions, s)
      else readConfig E s)"

section \<open>Watcher\<close>

text \<open>\<^verbatim>\<open>setTimeout\<close> and \<^verbatim>\<open>clearTimeout\<close> on the pending timers of the instance.\<close>

definition setTimeout :: "nat \<Rightarrow> scc \<Rightarrow> nat \<times> scc" where
  "setTimeout delay s =
     (next_timer s, s\<lparr>timers := timers s @ [(next_timer s, delay)], next_timer := Suc (next_timer s)\<rparr>)"

definition clearTimeout :: "nat \<Rightarrow> scc \<Rightarrow> scc" where
  "clearTimeout tid s = s\<lparr>timers := filter (\<lambda>t. fst t \<noteq> tid) (timers s)\<rparr>"

text \<open>
  \<^verbatim>\<open>startWatch(interval)\<close>; a missing or zero \<^verbatim>\<open>interval\<close> is falsy and keeps the
  current one.
\<close>

definition startWatch :: "nat option \<Rightarrow> scc \<Rightarrow> scc" where
  "startWatch ival s =
     (let w = watchConfig s;
          w1 = w\<lparr>w_interval := (case ival of None \<Rightarrow> w_interval w
                                  | Some i \<Rightarrow> if i \<noteq> 0 then i else w_interval w),
                 w_running := True\<rparr>;
          s1 = s\<lparr>watchConfig := w1\<rparr>;
          s2 = (case w_timerId w1 of
                  None \<Rightarrow> s1
                | Some tid \<Rightarrow> (clearTimeout tid s1)\<lparr>watchConfig := w1\<lparr>w_timerId := None\<rparr>\<rparr>);
          (tid', s3) = setTimeout (w_interval w1) s2
      in s3\<lparr>watchConfig := (watchConfig s3)\<lparr>w_timerId := Some tid'\<rparr>\<rparr>)"

definition endWatch :: "scc \<Rightarrow> scc" where
  "endWatch s = s\<lparr>watchConfig := (watchConfig s)\<lparr>w_running := False\<rparr>\<rparr>"

text \<open>
  The callback that \<^verbatim>\<open>startWatch\<close> hands to \<^verbatim>\<open>setTimeout\<close>: it reads the remote
  configuration with the stored bootstrap configuration, emits the outcome, and calls
  \<^verbatim>\<open>startWatch()\<close> under the test \<^verbatim>\<open>!this._watchConfig.running\<close>.
\<close>

definition timer_callback :: "env \<Rightarrow> scc \<Rightarrow> scc" where
  "timer_callback E s =
     (let (r, ops) = readCloudConfig E (bootstrapConfig s);
          ev = (case r of
                  Inr remoteConfig' \<Rightarrow> CONFIG_REFRESH_EVENT remoteConfig'
                | Inl e \<Rightarrow> CONFIG_ERROR_EVENT e);
          s1 = s\<lparr>emitted := emitted s @ [ev], io_log := io_log s @ ops\<rparr>
      in if \<not> w_running (watchConfig s1) then startWatch None s1 else s1)"

text \<open>The pending timer \<open>tid\<close> fires: it leaves the pending timers and its callback runs.\<close>

definition fire :: "env \<Rightarrow> nat \<Rightarrow> scc \<Rightarrow> scc" where
  "fire E tid s =
     (if tid \<in> fst ` set (timers s) then timer_callback E (clearTimeout tid s) else s)"

section \<open>Notions used to state the properties\<close>

text \<open>
  The value that one round of the loop of \<^verbatim>\<open>extend\<close> stores under a name, given the
  target's value \<open>src\<close> there and the value \<open>copy\<close> of the options.
\<close>

fun merge_val :: "jsval option \<Rightarrow> jsval \<Rightarrow> jsval" where
  "merge_val src (JObj k cps) = JObj k (extend_deep (clone_of k src) cps)"
| "merge_val src copy = copy"


definition keys_of :: "jsval \<Rightarrow> string set" where
  "keys_of v = fst ` set (enum_props v)"


text \<open>
  The property lists that JavaScript objects have: the keys in enumeration order (array
  indices ascending, then the other keys) without repetition, at every depth.
\<close>

fun enum_ordered :: "string list \<Rightarrow> bool" where
  "enum_ordered [] = True"
| "enum_ordered (k # ks) =
     ((case array_index k of
         Some n \<Rightarrow> (\<forall>k' \<in> set ks. case array_index k' of Some m \<Rightarrow> n < m | None \<Rightarrow> True)
       | None \<Rightarrow> (\<forall>k' \<in> set ks. array_index k' = None \<and> k' \<noteq> k))
      \<and> enum_ordered ks)"

fun wellformed :: "jsval \<Rightarrow> bool" where
  "wellformed (JObj kd ps) = (enum_ordered (map fst ps) \<and> (\<forall>kv \<in> set ps. wellformed (snd kv)))"
| "wellformed v = True"

text \<open>No key of the value contains the separator \<^verbatim>\<open>.\<close>, at any nesting depth.\<close>

fun dotfree :: "jsval \<Rightarrow> bool" where
  "dotfree (JObj kd ps) = (\<forall>kv \<in> set ps. CHR ''.'' \<notin> set (fst kv) \<and> dotfree (snd kv))"
| "dotfree v = True"

text \<open>The value reached from a value along a path of property names, if there is one.\<close>

fun lookup_path :: "jsval option \<Rightarrow> string list \<Rightarrow> jsval option" where
  "lookup_path v [] = v"
| "lookup_path (Some (JObj k ps)) (n # ns) = lookup_path (map_of ps n) ns"
| "lookup_path v (n # ns) = None"

fun is_object :: "jsval option \<Rightarrow> bool" where
  "is_object (Some (JObj k ps)) = True"
| "is_object v = False"

text \<open>Whether the config-server client fails, by throwing or by rejecting.\<close>

fun cloud_fails :: "cloud_outcome \<Rightarrow> bool" where
  "cloud_fails (CloudThrows e) = True"
| "cloud_fails (CloudRejects e) = True"
| "cloud_fails (CloudResolves r) = False"

section \<open>An example environment\<close>

text \<open>
  A configuration directory \<^verbatim>\<open>conf\<close> with a \<^verbatim>\<open>bootstrap.yml\<close> holding one document and an
  \<^verbatim>\<open>application.yml\<close> holding \<^verbatim>\<open>server.port: 8080\<close>, no profile-specific files, and a
  config-server client with a fixed outcome.
\<close>

definition remote_enabled_doc :: jsval where
  "remote_enabled_doc =
     JObj PlainObject [(''spring'', JObj PlainObject [(''cloud'', JObj PlainObject
       [(''config'', JObj PlainObject [(''enabled'', JBool True)])])])]"

definition application_doc :: jsval where
  "application_doc = JObj PlainObject [(''server.port'', JNum 8080)]"

definition example_env :: "jsval \<Rightarrow> cloud_outcome \<Rightarrow> env" where
  "example_env bootstrap_doc outcome =
     \<lparr> readFileSync = (\<lambda>p. if p = ''conf/bootstrap.yml'' then Inr ''bootstrap''
                           else if p = ''conf/application.yml'' then Inr ''application''
                           else Inl (SourceUnavailable p)),
       existsSync = (\<lambda>p. False),
       safeLoadAll = (\<lambda>text. if text = ''bootstrap'' then Inr [Some bootstrap_doc]
                             else if text = ''application'' then Inr [Some application_doc]
                             else Inl (ParseError text)),
       safeLoad = (\<lambda>text. Inl (ParseError text)),
       cloudConfigClient_load = (\<lambda>cfg. outcome) \<rparr>"

definition example_options :: options where
  "example_options =
     \<lparr> o_configPath = Some ''conf'', o_activeProfiles = Some [''dev''],
       o_bootstrapPath = None, o_level = None \<rparr>"

text \<open>
  The bootstrap and the local configuration that the first two stages compute in the example
  environment with the bootstrap document \<open>remote_enabled_doc\<close>.
\<close>

definition example_bootstrapConfig :: jsval where
  "example_bootstrapConfig =
     JObj PlainObject [(''spring'', JObj PlainObject [(''cloud'', JObj PlainObject
       [(''config'', JObj PlainObject [(''enabled'', JBool True),
          (''profiles'', JObj ArrayObject [(''0'', JStr ''dev'')])])])])]"

definition example_localConfig :: jsval where
  "example_localConfig = JObj PlainObject [(''server'', JObj PlainObject [(''port'', JNum 8080)])]"

text \<open>A config server that answers with the single property \<^verbatim>\<open>greeting\<close>.\<close>

definition example_remote :: "string \<Rightarrow> cloud_outcome" where
  "example_remote g = CloudResolves (Some [(''greeting'', JStr g)])"

section \<open>Properties of property assignment and \<^verbatim>\<open>extend\<close>\<close>

lemma map_of_update_existing:
  "map_of (update_existing ps k v) = (if map_of ps k = None then map_of ps else (map_of ps)(k \<mapsto> v))"
  by (induction ps) (auto simp: fun_eq_iff)

lemma map_fst_update_existing: "map fst (update_existing ps k v) = map fst ps"
  by (induction ps) auto

lemma keys_update_existing: "fst ` set (update_existing ps k v) = fst ` set ps"
  using map_fst_update_existing [of ps k v] by (metis list.set_map)

lemma map_of_insert_index:
  "map_of ps k = None \<Longrightarrow> map_of (insert_index n k v ps) = (map_of ps)(k \<mapsto> v)"
  by (induction ps) (auto simp: fun_eq_iff split: option.splits if_splits)

lemma keys_insert_index: "fst ` set (insert_index n k v ps) = insert k (fst ` set ps)"
  by (induction ps) (force split: option.splits if_splits)+

lemma map_of_set_prop: "map_of (set_prop ps k v) = (map_of ps)(k \<mapsto> v)"
  by (auto simp: set_prop_def map_of_update_existing map_of_insert_index fun_eq_iff map_add_def
           split: option.splits)

lemma keys_set_prop: "fst ` set (set_prop ps k v) = insert k (fst ` set ps)"
  by (auto simp: set_prop_def keys_update_existing keys_insert_index map_of_eq_None_iff
           split: option.splits)

lemma keys_extend_deep: "fst ` set (extend_deep t ps) = fst ` set t \<union> fst ` set ps"
  by (induction t ps rule: extend_deep.induct) (auto simp: keys_set_prop)

lemma extend_deep_Cons:
  "extend_deep t ((name, c) # rest) = extend_deep (set_prop t name (merge_val (map_of t name) c)) rest"
  by (cases c) auto

lemma map_of_extend_deep_other:
  "k \<notin> fst ` set ps \<Longrightarrow> map_of (extend_deep t ps) k = map_of t k"
proof (induction ps arbitrary: t)
  case Nil
  then show ?case by simp
next
  case (Cons a ps)
  obtain name c where a: "a = (name, c)" by (cases a)
  show ?case using Cons by (simp add: a extend_deep_Cons map_of_set_prop)
qed

lemma map_of_extend_deep:
  "distinct (map fst ps) \<Longrightarrow> map_of ps k = Some c \<Longrightarrow>
   map_of (extend_deep t ps) k = Some (merge_val (map_of t k) c)"
proof (induction ps arbitrary: t)
  case Nil
  then show ?case by simp
next
  case (Cons a ps)
  obtain name c' where a: "a = (name, c')" by (cases a)
  show ?case
  proof (cases "name = k")
    case True
    then have "c' = c" using Cons.prems a by simp
    moreover have "k \<notin> fst ` set ps" using Cons.prems a True by auto
    ultimately show ?thesis
      by (simp add: a True extend_deep_Cons map_of_extend_deep_other map_of_set_prop)
  next
    case False
    then show ?thesis using Cons by (simp add: a extend_deep_Cons map_of_set_prop)
  qed
qed

subsection \<open>Well-formed values are copied unchanged\<close>

lemma enum_ordered_distinct: "enum_ordered ks \<Longrightarrow> distinct ks"
  by (induction ks) (auto split: option.splits)

lemma enum_ordered_append_left: "enum_ordered (ks @ ks') \<Longrightarrow> enum_ordered ks"
  by (induction ks) (auto split: option.splits)

lemma enum_ordered_before_index:
  "enum_ordered (ks @ [k]) \<Longrightarrow> array_index k = Some n \<Longrightarrow>
   \<forall>k' \<in> set ks. \<exists>m. array_index k' = Some m \<and> m < n"
  by (induction ks) (auto split: option.splits)

lemma insert_index_append:
  "\<forall>k' \<in> fst ` set ps. \<exists>m. array_index k' = Some m \<and> m < n \<Longrightarrow>
   insert_index n k v ps = ps @ [(k, v)]"
  by (induction ps) auto

lemma set_prop_append:
  assumes "enum_ordered (map fst ps @ [k])"
  shows "set_prop ps k v = ps @ [(k, v)]"
proof -
  have "distinct (map fst ps @ [k])"
    using assms by (rule enum_ordered_distinct)
  then have none: "map_of ps k = None"
    by (simp add: map_of_eq_None_iff)
  show ?thesis
  proof (cases "array_index k")
    case None
    then show ?thesis by (simp add: set_prop_def none)
  next
    case (Some n)
    have "\<forall>k' \<in> fst ` set ps. \<exists>m. array_index k' = Some m \<and> m < n"
      using enum_ordered_before_index [OF assms Some] by simp
    then show ?thesis
      by (simp add: set_prop_def none Some insert_index_append)
  qed
qed

lemma extend_deep_wellformed:
  "enum_ordered (map fst (t @ ps)) \<Longrightarrow> \<forall>kv \<in> set ps. wellformed (snd kv) \<Longrightarrow>
   extend_deep t ps = t @ ps"
proof (induction t ps rule: extend_deep.induct)
  case (1 target)
  then show ?case by simp
next
  case (2 target name k cps rest)
  have ord: "enum_ordered (map fst target @ [name])"
    using "2.prems"(1) enum_ordered_append_left [of "map fst target @ [name]" "map fst rest"]
    by simp
  then have "distinct (map fst target @ [name])"
    by (rule enum_ordered_distinct)
  then have none: "map_of target name = None"
    by (simp add: map_of_eq_None_iff)
  have inner: "extend_deep [] cps = cps"
    using "2.IH"(1) "2.prems"(2) by (simp add: none)
  show ?case
    using "2.IH"(2) "2.prems" by (simp add: none inner set_prop_append [OF ord])
next
  case (3 target name rest)
  have ord: "enum_ordered (map fst target @ [name])"
    using "3.prems"(1) enum_ordered_append_left [of "map fst target @ [name]" "map fst rest"]
    by simp
  show ?case using "3.IH" "3.prems" by (simp add: set_prop_append [OF ord])
next
  case (4 target name b rest)
  have ord: "enum_ordered (map fst target @ [name])"
    using "4.prems"(1) enum_ordered_append_left [of "map fst target @ [name]" "map fst rest"]
    by simp
  show ?case using "4.IH" "4.prems" by (simp add: set_prop_append [OF ord])
next
  case (5 target name n rest)
  have ord: "enum_ordered (map fst target @ [name])"
    using "5.prems"(1) enum_ordered_append_left [of "map fst target @ [name]" "map fst rest"]
    by simp
  show ?case using "5.IH" "5.prems" by (simp add: set_prop_append [OF ord])
next
  case (6 target name s rest)
  have ord: "enum_ordered (map fst target @ [name])"
    using "6.prems"(1) enum_ordered_append_left [of "map fst target @ [name]" "map fst rest"]
    by simp
  show ?case using "6.IH" "6.prems" by (simp add: set_prop_append [OF ord])
qed



section \<open>PropertyTree merger\<close>









lemma deep_merge_eval:
  "mergeProperties
     [Some (JObj PlainObject [(''a'', JObj PlainObject [(''b'', JNum 1), (''c'', JNum 2)])]),
      Some (JObj PlainObject [(''a'', JObj PlainObject [(''b'', JNum 9)])])]
   = JObj PlainObject [(''a'', JObj PlainObject [(''b'', JNum 9), (''c'', JNum 2)])]"
  by (simp add: mergeProperties_def set_prop_def array_index_def is_digit_def)

text \<open>
  Claim C6. When two inputs, with keys as JavaScript objects have them, both hold a nested
  PropertySet under a key, the merge holds there the merge of the two nested PropertySets:
  a key that only the earlier one has keeps its value, every key of either nested
  PropertySet and of either input is a key of the result, and merging
  \<^verbatim>\<open>[{a:{b:1,c:2}}, {a:{b:9}}]\<close> gives \<^verbatim>\<open>{a:{b:9,c:2}}\<close>.
\<close>

theorem merge_nested_recursively:
  assumes "wellformed (JObj PlainObject pa)" and "wellformed (JObj PlainObject pb)"
    and "map_of pa k = Some (JObj PlainObject na)" and "map_of pb k = Some (JObj PlainObject nb)"
  shows "get_prop (mergeProperties [Some (JObj PlainObject pa), Some (JObj PlainObject pb)]) k
           = Some (mergeProperties [Some (JObj PlainObject na), Some (JObj PlainObject nb)])
    \<and> (\<forall>j v. map_of na j = Some v \<and> j \<notin> fst ` set nb \<longrightarrow>
           get_prop (mergeProperties [Some (JObj PlainObject na), Some (JObj PlainObject nb)]) j = Some v)
    \<and> fst ` set na \<union> fst ` set nb
         \<subseteq> keys_of (mergeProperties [Some (JObj PlainObject na), Some (JObj PlainObject nb)])
    \<and> fst ` set pa \<union> fst ` set pb
         \<subseteq> keys_of (mergeProperties [Some (JObj PlainObject pa), Some (JObj PlainObject pb)])
    \<and> mergeProperties
         [Some (JObj PlainObject [(''a'', JObj PlainObject [(''b'', JNum 1), (''c'', JNum 2)])]),
          Some (JObj PlainObject [(''a'', JObj PlainObject [(''b'', JNum 9)])])]
       = JObj PlainObject [(''a'', JObj PlainObject [(''b'', JNum 9), (''c'', JNum 2)])]"
proof -
  have da: "distinct (map fst pa)" and db: "distinct (map fst pb)"
    using assms(1,2) by (simp_all add: enum_ordered_distinct)
  have "(k, JObj PlainObject na) \<in> set pa"
    using assms(3) by (rule map_of_SomeD)
  then have wna: "wellformed (JObj PlainObject na)"
    using assms(1) by fastforce
  have first: "map_of (extend_deep [] pa) k = Some (JObj PlainObject (extend_deep [] na))"
    using map_of_extend_deep [OF da assms(3), of "[]"] by simp
  have "map_of (extend_deep (extend_deep [] pa) pb) k
          = Some (JObj PlainObject (extend_deep (extend_deep [] na) nb))"
    using map_of_extend_deep [OF db assms(4), of "extend_deep [] pa"] by (simp add: first)
  then have 1: "get_prop (mergeProperties [Some (JObj PlainObject pa), Some (JObj PlainObject pb)]) k
           = Some (mergeProperties [Some (JObj PlainObject na), Some (JObj PlainObject nb)])"
    by (simp add: mergeProperties_def)
  have copy: "extend_deep [] na = na"
    using wna extend_deep_wellformed [of "[]" na] by simp
  have 2: "\<forall>j v. map_of na j = Some v \<and> j \<notin> fst ` set nb \<longrightarrow>
           get_prop (mergeProperties [Some (JObj PlainObject na), Some (JObj PlainObject nb)]) j = Some v"
    by (simp add: mergeProperties_def copy map_of_extend_deep_other)
  have 3: "fst ` set na \<union> fst ` set nb
         \<subseteq> keys_of (mergeProperties [Some (JObj PlainObject na), Some (JObj PlainObject nb)])"
    by (simp add: mergeProperties_def keys_of_def keys_extend_deep)
  have 4: "fst ` set pa \<union> fst ` set pb
         \<subseteq> keys_of (mergeProperties [Some (JObj PlainObject pa), Some (JObj PlainObject pb)])"
    by (simp add: mergeProperties_def keys_of_def keys_extend_deep)
  show ?thesis
    using 1 2 3 4 deep_merge_eval by blast
qed

theorem merge_nested_recursively_witness:
  "get_prop (mergeProperties
       [Some (JObj PlainObject [(''a'', JObj PlainObject [(''b'', JNum 1), (''c'', JNum 2)]), (''d'', JNum 5)]),
        Some (JObj PlainObject [(''a'', JObj PlainObject [(''b'', JNum 9)])])]) ''a''
     = Some (mergeProperties [Some (JObj PlainObject [(''b'', JNum 1), (''c'', JNum 2)]),
                              Some (JObj PlainObject [(''b'', JNum 9)])])
   \<and> get_prop (mergeProperties [Some (JObj PlainObject [(''b'', JNum 1), (''c'', JNum 2)]),
                              Some (JObj PlainObject [(''b'', JNum 9)])]) ''c'' = Some (JNum 2)"
  using merge_nested_recursively
    [of "[(''a'', JObj PlainObject [(''b'', JNum 1), (''c'', JNum 2)]), (''d'', JNum 5)]"
        "[(''a'', JObj PlainObject [(''b'', JNum 9)])]" "''a''"
        "[(''b'', JNum 1), (''c'', JNum 2)]" "[(''b'', JNum 9)]"]
  by (simp add: array_index_def is_digit_def)

subsection \<open>Dot-path expansion\<close>

lemma split_on_not_Nil: "split_on c s \<noteq> []"
  by (induction s) (auto split: list.splits)

lemma split_on_no_separator: "t \<in> set (split_on c s) \<Longrightarrow> c \<notin> set t"
  by (induction s arbitrary: t) (auto split: if_splits list.splits)

lemma set_update_existing: "set (update_existing ps k v) \<subseteq> insert (k, v) (set ps)"
  by (induction ps) (auto split: if_splits)

lemma set_insert_index: "set (insert_index n k v ps) = insert (k, v) (set ps)"
  by (induction ps) (auto split: option.splits if_splits)

lemma set_set_prop: "set (set_prop ps k v) \<subseteq> insert (k, v) (set ps)"
  using set_update_existing [of ps k v]
  by (auto simp: set_prop_def set_insert_index split: option.splits)

lemma dotfree_set_prop:
  "dotfree (JObj kd ps) \<Longrightarrow> CHR ''.'' \<notin> set k \<Longrightarrow> dotfree v \<Longrightarrow> dotfree (JObj kd' (set_prop ps k v))"
  using set_set_prop [of ps k v] by auto

lemma dotfree_clone_of:
  "dotfree (JObj kd t) \<Longrightarrow> dotfree (JObj kd' (clone_of k (map_of t name)))"
proof (cases "map_of t name")
  case None
  then show ?thesis by simp
next
  case (Some src)
  assume df: "dotfree (JObj kd t)"
  have "(name, src) \<in> set t" using Some by (rule map_of_SomeD)
  then have "dotfree src" using df by fastforce
  then show ?thesis using Some by (cases src) auto
qed

lemma dotfree_extend_deep:
  "dotfree (JObj kd t) \<Longrightarrow> dotfree (JObj kd ps) \<Longrightarrow> dotfree (JObj kd (extend_deep t ps))"
proof (induction t ps rule: extend_deep.induct)
  case (1 target)
  then show ?case by simp
next
  case (2 target name k cps rest)
  have "dotfree (JObj kd (clone_of k (map_of target name)))"
    using "2.prems"(1) by (rule dotfree_clone_of)
  moreover have "dotfree (JObj kd cps)" using "2.prems"(2) by simp
  ultimately have "dotfree (JObj kd (extend_deep (clone_of k (map_of target name)) cps))"
    by (rule "2.IH"(1))
  then have inner: "dotfree (JObj k (extend_deep (clone_of k (map_of target name)) cps))"
    by simp
  have "CHR ''.'' \<notin> set name" using "2.prems"(2) by simp
  then have "dotfree (JObj kd (set_prop target name
       (JObj k (extend_deep (clone_of k (map_of target name)) cps))))"
    using "2.prems"(1) inner by (intro dotfree_set_prop)
  moreover have "dotfree (JObj kd rest)" using "2.prems"(2) by simp
  ultimately show ?case using "2.IH"(2) by simp
next
  case (3 target name rest)
  have "dotfree (JObj kd (set_prop target name JNull))"
    using "3.prems" by (intro dotfree_set_prop) auto
  moreover have "dotfree (JObj kd rest)" using "3.prems"(2) by simp
  ultimately show ?case using "3.IH" by simp
next
  case (4 target name b rest)
  have "dotfree (JObj kd (set_prop target name (JBool b)))"
    using "4.prems" by (intro dotfree_set_prop) auto
  moreover have "dotfree (JObj kd rest)" using "4.prems"(2) by simp
  ultimately show ?case using "4.IH" by simp
next
  case (5 target name n rest)
  have "dotfree (JObj kd (set_prop target name (JNum n)))"
    using "5.prems" by (intro dotfree_set_prop) auto
  moreover have "dotfree (JObj kd rest)" using "5.prems"(2) by simp
  ultimately show ?case using "5.IH" by simp
next
  case (6 target name s rest)
  have "dotfree (JObj kd (set_prop target name (JStr s)))"
    using "6.prems" by (intro dotfree_set_prop) auto
  moreover have "dotfree (JObj kd rest)" using "6.prems"(2) by simp
  ultimately show ?case using "6.IH" by simp
qed

lemma dotfree_createObjectForProperty:
  "\<forall>s \<in> set segs. CHR ''.'' \<notin> set s \<Longrightarrow> dotfree v \<Longrightarrow> dotfree (createObjectForProperty segs v)"
proof (induction segs)
  case Nil
  then show ?case by simp
next
  case (Cons seg segs)
  then have "dotfree (createObjectForProperty segs v)" by simp
  moreover have "CHR ''.'' \<notin> set seg" using Cons.prems(1) by simp
  ultimately have "dotfree (JObj PlainObject (set_prop [] seg (createObjectForProperty segs v)))"
    by (intro dotfree_set_prop) auto
  then show ?case by simp
qed

lemma set_prop_Nil: "set_prop [] k v = [(k, v)]"
  by (simp add: set_prop_def split: option.splits)

lemma extend_true_createObjectForProperty:
  "extend_true object (Some (createObjectForProperty (seg # segs) v))
     = extend_deep object [(seg, createObjectForProperty segs v)]"
  by (simp add: set_prop_Nil)

lemma split_on_Cons:
  "\<exists>seg segs. split_on c name = seg # segs \<and> c \<notin> set seg \<and> (\<forall>s \<in> set segs. c \<notin> set s)"
  using split_on_not_Nil [of c name] split_on_no_separator [of _ c name]
  by (cases "split_on c name") auto

lemma dotfree_parse_step:
  assumes "dotfree (JObj kd object)" and "dotfree v"
  shows "dotfree (JObj kd (extend_true object
           (Some (createObjectForProperty (split_on CHR ''.'' name) v))))"
proof -
  obtain seg segs where sp: "split_on CHR ''.'' name = seg # segs"
    and seg: "CHR ''.'' \<notin> set seg" and segs: "\<forall>s \<in> set segs. CHR ''.'' \<notin> set s"
    using split_on_Cons by blast
  have "dotfree (createObjectForProperty segs v)"
    using segs assms(2) by (rule dotfree_createObjectForProperty)
  then have "dotfree (JObj kd [(seg, createObjectForProperty segs v)])"
    using seg by simp
  with assms(1) have "dotfree (JObj kd (extend_deep object [(seg, createObjectForProperty segs v)]))"
    by (rule dotfree_extend_deep)
  then show ?thesis
    by (simp only: sp extend_true_createObjectForProperty)
qed

lemma dotfree_parseProperties_loop:
  "dotfree (JObj kd object) \<Longrightarrow> \<forall>kv \<in> set ps. dotfree (snd kv) \<Longrightarrow>
   dotfree (JObj kd (parseProperties_loop object ps))"
proof (induction object ps rule: parseProperties_loop.induct)
  case (1 object)
  then show ?case by simp
next
  case (2 object thisPropertyName v rest)
  have "dotfree v" using "2.prems"(2) by simp
  with "2.prems"(1) have "dotfree (JObj kd (extend_true object
      (Some (createObjectForProperty (split_on CHR ''.'' thisPropertyName) v))))"
    by (rule dotfree_parse_step)
  moreover have "\<forall>kv \<in> set rest. dotfree (snd kv)" using "2.prems"(2) by simp
  ultimately have "dotfree (JObj kd (parseProperties_loop (extend_true object
      (Some (createObjectForProperty (split_on CHR ''.'' thisPropertyName) v))) rest))"
    by (rule "2.IH")
  then show ?case by (simp only: parseProperties_loop.simps)
qed

lemma keys_parse_step:
  assumes "\<forall>k \<in> fst ` set object. CHR ''.'' \<notin> set k"
  shows "\<forall>k \<in> fst ` set (extend_true object
           (Some (createObjectForProperty (split_on CHR ''.'' name) v))). CHR ''.'' \<notin> set k"
proof -
  obtain seg segs where sp: "split_on CHR ''.'' name = seg # segs"
    and seg: "CHR ''.'' \<notin> set seg"
    using split_on_Cons by blast
  have "\<forall>k \<in> fst ` set (extend_deep object [(seg, createObjectForProperty segs v)]).
          CHR ''.'' \<notin> set k"
    using assms seg by (simp add: keys_extend_deep)
  then show ?thesis
    by (simp only: sp extend_true_createObjectForProperty)
qed

lemma keys_parseProperties_loop:
  "\<forall>k \<in> fst ` set object. CHR ''.'' \<notin> set k \<Longrightarrow>
   \<forall>k \<in> fst ` set (parseProperties_loop object ps). CHR ''.'' \<notin> set k"
proof (induction object ps rule: parseProperties_loop.induct)
  case (1 object)
  then show ?case by simp
next
  case (2 object thisPropertyName v rest)
  have "\<forall>k \<in> fst ` set (extend_true object
      (Some (createObjectForProperty (split_on CHR ''.'' thisPropertyName) v))). CHR ''.'' \<notin> set k"
    using "2.prems" by (rule keys_parse_step)
  then have "\<forall>k \<in> fst ` set (parseProperties_loop (extend_true object
      (Some (createObjectForProperty (split_on CHR ''.'' thisPropertyName) v))) rest). CHR ''.'' \<notin> set k"
    by (rule "2.IH")
  then show ?case by (simp only: parseProperties_loop.simps)
qed

text \<open>
  What the loop of \<^verbatim>\<open>_parsePropertiesToObjects\<close> does reach: the keys of the object it is
  given. No top-level key of the result contains the separator, and a separator can only
  remain in the result inside a value of the input that already had it.
\<close>

lemma top_level_keys_separator_free:
  "(\<forall>k \<in> keys_of (parsePropertiesToObjects (Some propertiesObject)). CHR ''.'' \<notin> set k)
   \<and> ((\<forall>kv \<in> set (enum_props propertiesObject). dotfree (snd kv))
        \<longrightarrow> dotfree (parsePropertiesToObjects (Some propertiesObject)))"
proof -
  have "\<forall>k \<in> fst ` set (parseProperties_loop [] (enum_props propertiesObject)). CHR ''.'' \<notin> set k"
    by (rule keys_parseProperties_loop) simp
  then have 1: "\<forall>k \<in> keys_of (parsePropertiesToObjects (Some propertiesObject)). CHR ''.'' \<notin> set k"
    by (simp add: parsePropertiesToObjects_def keys_of_def)
  have 2: "dotfree (parsePropertiesToObjects (Some propertiesObject))"
    if "\<forall>kv \<in> set (enum_props propertiesObject). dotfree (snd kv)"
    using dotfree_parseProperties_loop [of PlainObject "[]" "enum_props propertiesObject"] that
    by (simp add: parsePropertiesToObjects_def)
  show ?thesis using 1 2 by blast
qed

text \<open>
  Claim C3, evaluated on the code. The docstrings promise an object of deeply nested
  properties, not dot-separated, for the properties of a YAML document. For the input
  \<^verbatim>\<open>{a: {'b.c': 1}}\<close>, a nested PropertySet as YAML gives it, \<^verbatim>\<open>_parsePropertiesToObjects\<close>
  returns \<^verbatim>\<open>{a: {'b.c': 1}}\<close>: the key \<^verbatim>\<open>b.c\<close> at depth two still contains the separator,
  because the loop splits the keys of the object it is given and never those of its values.
\<close>

theorem expansion_leaves_nested_dotted_key:
  "parsePropertiesToObjects (Some (JObj PlainObject [(''a'', JObj PlainObject [(''b.c'', JNum 1)])]))
     = JObj PlainObject [(''a'', JObj PlainObject [(''b.c'', JNum 1)])]
   \<and> get_prop (JObj PlainObject [(''b.c'', JNum 1)]) ''b.c'' = Some (JNum 1)
   \<and> CHR ''.'' \<in> set ''b.c''
   \<and> \<not> dotfree (parsePropertiesToObjects
          (Some (JObj PlainObject [(''a'', JObj PlainObject [(''b.c'', JNum 1)])])))"
  by (simp add: parsePropertiesToObjects_def set_prop_def array_index_def is_digit_def)

section \<open>Profile filter\<close>

lemma shouldUseDocument_loop_negated:
  "CHR ''!'' # name \<in> set ts \<Longrightarrow> name \<in> set activeProfiles \<Longrightarrow>
   shouldUseDocument_loop ts activeProfiles useThisDoc = False"
  by (induction ts arbitrary: useThisDoc) auto

lemma split_on_nonempty_piece: "t \<in> set (split_on c s) \<Longrightarrow> t \<noteq> [] \<Longrightarrow> s \<noteq> []"
  by (cases s) auto

text \<open>
  Claim C7. A document whose \<^verbatim>\<open>profiles\<close> string has, among its comma-separated tokens, a
  negated token \<^verbatim>\<open>!name\<close> with \<^verbatim>\<open>name\<close> an active profile is excluded by
  \<^verbatim>\<open>_shouldUseDocument\<close>, whatever the other tokens are.
\<close>

theorem negated_active_profile_excludes:
  assumes "get_prop document ''profiles'' = Some (JStr p)"
    and "CHR ''!'' # name \<in> set (split_on CHR '','' p)"
    and "name \<in> set activeProfiles"
  shows "shouldUseDocument (Some document) (Some activeProfiles) = Inr False"
proof -
  obtain k ps where doc: "document = JObj k ps"
    using assms(1) by (cases document) auto
  have "p \<noteq> []"
    using assms(2) split_on_nonempty_piece by blast
  then show ?thesis
    using assms by (simp add: shouldUseDocument_def doc shouldUseDocument_loop_negated)
qed

theorem negated_active_profile_excludes_witness:
  "get_prop (JObj PlainObject [(''profiles'', JStr ''prod,!prod'')]) ''profiles''
     = Some (JStr ''prod,!prod'')
   \<and> CHR ''!'' # ''prod'' \<in> set (split_on CHR '','' ''prod,!prod'')
   \<and> ''prod'' \<in> set [''dev'', ''prod'']
   \<and> shouldUseDocument (Some (JObj PlainObject [(''profiles'', JStr ''prod,!prod'')]))
        (Some [''dev'', ''prod'']) = Inr False"
  using negated_active_profile_excludes
    [of "JObj PlainObject [(''profiles'', JStr ''prod,!prod'')]" "''prod,!prod''" "''prod''"
        "[''dev'', ''prod'']"]
  by simp

lemma readYaml_loop_skip:
  "shouldUseDocument d ap = Inr False \<Longrightarrow>
   readYaml_loop doc (pre @ d # post) ap = readYaml_loop doc (pre @ post) ap"
  by (induction pre arbitrary: doc) (auto split: sum.splits)

text \<open>
  Claim C10. Whatever the active profiles, a document that is \<^verbatim>\<open>undefined\<close> or \<^verbatim>\<open>null\<close> is
  excluded by \<^verbatim>\<open>_shouldUseDocument\<close>, and the loop of \<^verbatim>\<open>_readYaml\<close> gives the same result
  with it as without it.
\<close>

theorem null_document_excluded:
  "shouldUseDocument None activeProfiles = Inr False
   \<and> shouldUseDocument (Some JNull) activeProfiles = Inr False
   \<and> readYaml_loop doc (pre @ None # post) activeProfiles
       = readYaml_loop doc (pre @ post) activeProfiles
   \<and> readYaml_loop doc (pre @ Some JNull # post) activeProfiles
       = readYaml_loop doc (pre @ post) activeProfiles"
  by (simp add: readYaml_loop_skip shouldUseDocument_def)

section \<open>Resolution pipeline\<close>

lemma snd_readYaml: "snd (readYaml E p ap) = [ReadFile p]"
  by (simp add: readYaml_def)

lemma snd_readYamlAsDocument: "snd (readYamlAsDocument E p ap) = [ReadFile p]"
  using snd_readYaml [of E p ap]
  by (cases "readYaml E p ap") (auto simp: readYamlAsDocument_def split: sum.splits)

lemma bootstrap_stage_io:
  "io_log (snd (bootstrap_stage E s))
     = io_log s @ [ReadFile (path_string (theBootstrapPath (opts s)) @ ''/bootstrap.yml'')]"
  using snd_readYamlAsDocument
    [of E "path_string (theBootstrapPath (opts s)) @ ''/bootstrap.yml''" "o_activeProfiles (opts s)"]
  by (auto simp: bootstrap_stage_def split: prod.splits sum.splits)

lemma local_stage_io: "\<exists>ops. io_log (snd (local_stage E s)) = io_log s @ ops"
  by (auto simp: local_stage_def Let_def split: prod.splits sum.splits)

lemma remote_stage_io: "\<exists>ops. io_log (snd (remote_stage E s)) = io_log s @ ops"
  by (auto simp: remote_stage_def split: prod.splits sum.splits)

lemma compose_stage_io: "io_log (snd (compose_stage s)) = io_log s"
  by (simp add: compose_stage_def generateConfig_def Let_def)

lemma readConfig_io:
  "\<exists>ops. io_log (snd (readConfig E s))
     = io_log s @ ReadFile (path_string (theBootstrapPath (opts s)) @ ''/bootstrap.yml'') # ops"
proof -
  obtain r1 s1 where b: "bootstrap_stage E s = (r1, s1)" by (cases "bootstrap_stage E s")
  obtain r2 s2 where l: "local_stage E s1 = (r2, s2)" by (cases "local_stage E s1")
  obtain r3 s3 where r: "remote_stage E s2 = (r3, s3)" by (cases "remote_stage E s2")
  have 1: "io_log s1 = io_log s @ [ReadFile (path_string (theBootstrapPath (opts s)) @ ''/bootstrap.yml'')]"
    using bootstrap_stage_io [of E s] b by simp
  obtain ops2 where 2: "io_log s2 = io_log s1 @ ops2"
    using local_stage_io [of E s1] l by auto
  obtain ops3 where 3: "io_log s3 = io_log s2 @ ops3"
    using remote_stage_io [of E s2] r by auto
  have 4: "io_log (snd (compose_stage s3)) = io_log s3"
    by (rule compose_stage_io)
  show ?thesis
    by (cases r1; cases r2; cases r3) (simp_all add: readConfig_def b l r 1 2 3 4)
qed

text \<open>
  Claim C8, as amended. When \<^verbatim>\<open>configPath\<close> is missing or the empty string, or
  \<^verbatim>\<open>activeProfiles\<close> is missing, \<^verbatim>\<open>load()\<close> rejects with the invalid-options error and
  performs no file or network operation; otherwise it is the resolution pass, which starts
  by reading the bootstrap file.
\<close>

theorem load_checks_options:
  "(o_configPath (opts s) = None \<or> o_configPath (opts s) = Some [] \<or> o_activeProfiles (opts s) = None
      \<longrightarrow> load E s = (Inl InvalidOptions, s) \<and> io_log (snd (load E s)) = io_log s)
   \<and> (\<not> (o_configPath (opts s) = None \<or> o_configPath (opts s) = Some []
           \<or> o_activeProfiles (opts s) = None)
      \<longrightarrow> load E s = readConfig E s
          \<and> (\<exists>ops. io_log (snd (load E s))
                = io_log s @ ReadFile (path_string (theBootstrapPath (opts s)) @ ''/bootstrap.yml'') # ops))"
proof (cases "o_configPath (opts s)")
  case None
  then show ?thesis by (simp add: load_def)
next
  case (Some p)
  show ?thesis
  proof (cases "p = [] \<or> o_activeProfiles (opts s) = None")
    case True
    then show ?thesis using Some by (auto simp: load_def)
  next
    case False
    then have "load E s = readConfig E s" using Some by (simp add: load_def)
    then show ?thesis using Some False readConfig_io [of E s] by auto
  qed
qed


theorem load_checks_options_witness:
  "load (example_env remote_enabled_doc (CloudResolves None))
      (constructor (example_options\<lparr>o_activeProfiles := None\<rparr>))
     = (Inl InvalidOptions, constructor (example_options\<lparr>o_activeProfiles := None\<rparr>))
   \<and> load (example_env remote_enabled_doc (CloudResolves None)) (constructor example_options)
     = readConfig (example_env remote_enabled_doc (CloudResolves None)) (constructor example_options)
   \<and> (\<exists>ops. io_log (snd (load (example_env remote_enabled_doc (CloudResolves None))
                             (constructor example_options)))
         = ReadFile ''conf/bootstrap.yml'' # ops)"
  using load_checks_options
      [of "constructor (example_options\<lparr>o_activeProfiles := None\<rparr>)"
          "example_env remote_enabled_doc (CloudResolves None)"]
    load_checks_options
      [of "constructor example_options" "example_env remote_enabled_doc (CloudResolves None)"]
  by (auto simp: constructor_def example_options_def theBootstrapPath_def)

text \<open>
  Claim C8 as stated fails for options in which both \<^verbatim>\<open>configPath\<close> and \<^verbatim>\<open>activeProfiles\<close>
  are present and \<^verbatim>\<open>configPath\<close> is the empty string: \<^verbatim>\<open>load()\<close> rejects them without
  starting the resolution.
\<close>

theorem load_checks_options_counterexample:
  "o_configPath (opts (constructor (example_options\<lparr>o_configPath := Some []\<rparr>))) = Some []
   \<and> o_activeProfiles (opts (constructor (example_options\<lparr>o_configPath := Some []\<rparr>)))
       = Some [''dev'']
   \<and> fst (load (example_env remote_enabled_doc (CloudResolves None))
         (constructor (example_options\<lparr>o_configPath := Some []\<rparr>))) = Inl InvalidOptions
   \<and> io_log (snd (load (example_env remote_enabled_doc (CloudResolves None))
         (constructor (example_options\<lparr>o_configPath := Some []\<rparr>)))) = []"
  by (simp add: load_def constructor_def example_options_def)

subsection \<open>The remote-config section of the bootstrap configuration\<close>

lemma assign_at_fails:
  "\<not> is_object (lookup_path t path) \<Longrightarrow> assign_at t path p v = Inl TypeError"
  by (induction t path p v rule: assign_at.induct) auto

lemma map_of_update_existing_same:
  "map_of ps n \<noteq> None \<Longrightarrow> map_of (update_existing ps n x) n = Some x"
  by (simp add: map_of_update_existing)

lemma is_object_lookup_Cons:
  "is_object (lookup_path v (n # ns)) \<Longrightarrow>
   \<exists>k ps. v = Some (JObj k ps) \<and> is_object (lookup_path (map_of ps n) ns)"
  by (induction v "n # ns" rule: lookup_path.induct) auto

lemma is_object_Some: "is_object v \<Longrightarrow> \<exists>k ps. v = Some (JObj k ps)"
  by (cases v rule: is_object.cases) auto

lemma is_object_lookup_not_None: "is_object (lookup_path v ns) \<Longrightarrow> v \<noteq> None"
  by (cases ns) (auto dest: is_object_lookup_Cons is_object_Some)

lemma assign_at_succeeds:
  "is_object (lookup_path t path) \<Longrightarrow>
   \<exists>r. assign_at t path p v = Inr r \<and> is_object (lookup_path (Some r) path)"
proof (induction path arbitrary: t)
  case Nil
  then show ?case by (auto dest: is_object_Some)
next
  case (Cons n ns)
  obtain k ps where t: "t = Some (JObj k ps)" and sub: "is_object (lookup_path (map_of ps n) ns)"
    using is_object_lookup_Cons [OF Cons.prems] by blast
  obtain x where x: "assign_at (map_of ps n) ns p v = Inr x"
    and xo: "is_object (lookup_path (Some x) ns)"
    using Cons.IH [OF sub] by blast
  have "map_of ps n \<noteq> None"
    using sub by (rule is_object_lookup_not_None)
  then have "map_of (update_existing ps n x) n = Some x"
    by (rule map_of_update_existing_same)
  then show ?case using x xo by (simp add: t)
qed

lemma spring_cloud_config_lookup:
  assumes "is_object (lookup_path b [''spring'', ''cloud'', ''config''])"
  shows "spring_cloud_config b = Inr (lookup_path b [''spring'', ''cloud'', ''config''])"
proof -
  obtain k1 p1 where b: "b = Some (JObj k1 p1)"
    and 1: "is_object (lookup_path (map_of p1 ''spring'') [''cloud'', ''config''])"
    using is_object_lookup_Cons [OF assms] by blast
  obtain k2 p2 where s: "map_of p1 ''spring'' = Some (JObj k2 p2)"
    and 2: "is_object (lookup_path (map_of p2 ''cloud'') [''config''])"
    using is_object_lookup_Cons [OF 1] by blast
  obtain k3 p3 where c: "map_of p2 ''cloud'' = Some (JObj k3 p3)"
    using is_object_lookup_Cons [OF 2] by blast
  show ?thesis
    by (simp add: spring_cloud_config_def b s c)
qed

lemma readCloudConfig_failing_client:
  assumes "is_object (lookup_path b [''spring'', ''cloud'', ''config''])"
    and "\<forall>cfg. lookup_path b [''spring'', ''cloud'', ''config''] = Some cfg
           \<longrightarrow> cloud_fails (cloudConfigClient_load E cfg)"
  shows "fst (readCloudConfig E b) = Inr (JObj PlainObject [])"
proof -
  obtain k ps where cfg: "lookup_path b [''spring'', ''cloud'', ''config''] = Some (JObj k ps)"
    using is_object_Some [OF assms(1)] by blast
  have scc: "spring_cloud_config b = Inr (Some (JObj k ps))"
    using spring_cloud_config_lookup [OF assms(1)] cfg by simp
  have "cloud_fails (cloudConfigClient_load E (JObj k ps))"
    using assms(2) cfg by simp
  then show ?thesis
    by (cases "cloudConfigClient_load E (JObj k ps)") (simp_all add: readCloudConfig_def scc)
qed

lemma bootstrap_stage_object:
  "fst (bootstrap_stage E s) = Inr u \<Longrightarrow>
   is_object (lookup_path (bootstrapConfig (snd (bootstrap_stage E s))) [''spring'', ''cloud'', ''config''])"
proof -
  let ?P = "[''spring'', ''cloud'', ''config'']"
  assume ok: "fst (bootstrap_stage E s) = Inr u"
  obtain r ops where rd: "readYamlAsDocument E (path_string (theBootstrapPath (opts s)) @ ''/bootstrap.yml'')
      (o_activeProfiles (opts s)) = (r, ops)"
    by (cases "readYamlAsDocument E (path_string (theBootstrapPath (opts s)) @ ''/bootstrap.yml'')
      (o_activeProfiles (opts s))")
  obtain doc where r: "r = Inr doc"
    using ok rd by (cases r) (simp_all add: bootstrap_stage_def)
  let ?a = "assign_at (Some doc) ?P ''profiles'' (map_option array_of_strings (o_activeProfiles (opts s)))"
  have obj: "is_object (lookup_path (Some doc) ?P)"
  proof (rule ccontr)
    assume "\<not> is_object (lookup_path (Some doc) ?P)"
    then have "?a = Inl TypeError" by (rule assign_at_fails)
    then show False using ok rd r by (simp add: bootstrap_stage_def)
  qed
  obtain b where b: "?a = Inr b" and bo: "is_object (lookup_path (Some b) ?P)"
    using assign_at_succeeds [OF obj] by blast
  show ?thesis
    using rd r b bo by (simp add: bootstrap_stage_def)
qed

lemma local_stage_object:
  assumes "is_object (lookup_path (bootstrapConfig s) [''spring'', ''cloud'', ''config''])"
  shows "is_object (lookup_path (bootstrapConfig (snd (local_stage E s))) [''spring'', ''cloud'', ''config''])"
proof -
  let ?P = "[''spring'', ''cloud'', ''config'']"
  obtain r ops where rd: "readApplicationConfig E (path_string (o_configPath (opts s)))
      (o_activeProfiles (opts s)) = (r, ops)"
    by (cases "readApplicationConfig E (path_string (o_configPath (opts s))) (o_activeProfiles (opts s))")
  show ?thesis
  proof (cases r)
    case (Inl e)
    then show ?thesis using assms rd by (simp add: local_stage_def)
  next
    case (Inr app)
    let ?name = "and_member (and_member (and_member (get_prop app ''spring'') ''cloud'') ''config'') ''name''"
    obtain b where b: "assign_at (bootstrapConfig s) ?P ''name'' ?name = Inr b"
      and bo: "is_object (lookup_path (Some b) ?P)"
      using assign_at_succeeds [OF assms] by blast
    show ?thesis
      using assms rd Inr b bo by (simp add: local_stage_def Let_def)
  qed
qed

subsection \<open>The example environment, evaluated\<close>

lemmas example_eval =
  constructor_def example_options_def example_env_def remote_enabled_doc_def application_doc_def
  theBootstrapPath_def readApplicationConfig_def
  readYamlAsDocument_def readYaml_def shouldUseDocument_def parsePropertiesToObjects_def
  mergeProperties_def set_prop_def array_index_def is_digit_def array_of_strings_def
  dec_string.simps digit_char_def

lemma example_bootstrap_stage:
  "bootstrap_stage (example_env remote_enabled_doc outcome) (constructor example_options)
    = (Inr (), (constructor example_options)
         \<lparr>bootstrapConfig := Some example_bootstrapConfig,
          io_log := [ReadFile ''conf/bootstrap.yml'']\<rparr>)"
  by (simp add: example_eval bootstrap_stage_def example_bootstrapConfig_def)

lemma example_local_stage:
  "local_stage (example_env remote_enabled_doc outcome)
     ((constructor example_options)
         \<lparr>bootstrapConfig := Some example_bootstrapConfig,
          io_log := [ReadFile ''conf/bootstrap.yml'']\<rparr>)
    = (Inr (), (constructor example_options)
         \<lparr>bootstrapConfig := Some example_bootstrapConfig,
          localConfig := Some example_localConfig,
          io_log := [ReadFile ''conf/bootstrap.yml'', ReadFile ''conf/application.yml'',
                     Exists ''conf/application-dev.yml'']\<rparr>)"
  by (simp add: example_eval local_stage_def readProfileYaml_def example_localConfig_def)


text \<open>
  A dotted key below the top level is an ordinary YAML input, and what it leaves unexpanded
  is missed later: with the bootstrap document \<^verbatim>\<open>{spring: {'cloud.config.enabled': false}}\<close>
  the bootstrap configuration has no \<^verbatim>\<open>spring.cloud\<close>, and \<^verbatim>\<open>load()\<close> rejects with the
  TypeError of the assignment to \<^verbatim>\<open>spring.cloud.config.profiles\<close>.
\<close>

lemma nested_dotted_bootstrap_key_fails:
  "fst (load (example_env
               (JObj PlainObject [(''spring'', JObj PlainObject [(''cloud.config.enabled'', JBool False)])])
               outcome)
          (constructor example_options)) = Inl TypeError"
  by (simp add: load_def readConfig_def bootstrap_stage_def example_eval)

subsection \<open>Failures of the pass and of the remote stage\<close>

text \<open>
  Claim C9. When the bootstrap document that \<^verbatim>\<open>_readYamlAsDocument\<close> returns has no object
  at the path \<^verbatim>\<open>spring.cloud.config\<close>, the pass fails with the TypeError of the assignment
  to \<^verbatim>\<open>spring.cloud.config.profiles\<close>, and so does \<^verbatim>\<open>load()\<close>; nothing is assumed about
  remote configuration being enabled.
\<close>

theorem missing_remote_section_fails:
  assumes "readYamlAsDocument E (path_string (theBootstrapPath (opts s)) @ ''/bootstrap.yml'')
             (o_activeProfiles (opts s)) = (Inr doc, ops)"
    and "\<not> is_object (lookup_path (Some doc) [''spring'', ''cloud'', ''config''])"
  shows "fst (readConfig E s) = Inl TypeError
    \<and> (truthy_string (o_configPath (opts s)) \<and> o_activeProfiles (opts s) \<noteq> None
         \<longrightarrow> fst (load E s) = Inl TypeError)"
proof -
  have "assign_at (Some doc) [''spring'', ''cloud'', ''config''] ''profiles''
          (map_option array_of_strings (o_activeProfiles (opts s))) = Inl TypeError"
    using assms(2) by (rule assign_at_fails)
  then have "fst (bootstrap_stage E s) = Inl TypeError"
    using assms(1) by (simp add: bootstrap_stage_def)
  then have "fst (readConfig E s) = Inl TypeError"
    by (cases "bootstrap_stage E s") (simp add: readConfig_def)
  then show ?thesis by (simp add: load_def)
qed

theorem missing_remote_section_fails_witness:
  "fst (load (example_env (JObj PlainObject [(''spring'', JObj PlainObject [(''application'', JStr ''demo'')])])
               (CloudResolves None))
        (constructor example_options)) = Inl TypeError"
  using missing_remote_section_fails
    [of "example_env (JObj PlainObject [(''spring'', JObj PlainObject [(''application'', JStr ''demo'')])])
               (CloudResolves None)"
        "constructor example_options"
        "JObj PlainObject [(''spring'', JObj PlainObject [(''application'', JStr ''demo'')])]"
        "[ReadFile ''conf/bootstrap.yml'']"]
  by (simp add: constructor_def example_options_def example_env_def theBootstrapPath_def
        readYamlAsDocument_def readYaml_def shouldUseDocument_def parsePropertiesToObjects_def
        set_prop_def array_index_def is_digit_def)

text \<open>
  Claim C4. In a pass whose bootstrap and local stages succeed and whose config-server client
  fails (throws or rejects) on the remote-config section it is given, the remote stage
  yields the empty object, the pass succeeds, and the composed configuration, which is also
  the one stored, is the merge of the bootstrap and the local configuration alone.
\<close>

theorem remote_failure_degrades:
  fixes E s
  defines "s2 \<equiv> snd (local_stage E (snd (bootstrap_stage E s)))"
  assumes "fst (bootstrap_stage E s) = Inr ()"
    and "fst (local_stage E (snd (bootstrap_stage E s))) = Inr ()"
    and "\<forall>cfg. lookup_path (bootstrapConfig s2) [''spring'', ''cloud'', ''config''] = Some cfg
           \<longrightarrow> cloud_fails (cloudConfigClient_load E cfg)"
  shows "fst (readCloudConfig E (bootstrapConfig s2)) = Inr (JObj PlainObject [])
    \<and> fst (readConfig E s) = Inr (Some (mergeProperties [bootstrapConfig s2, localConfig s2]))
    \<and> remoteConfig (snd (readConfig E s)) = Some (JObj PlainObject [])
    \<and> getConfig (snd (readConfig E s)) = Some (mergeProperties [bootstrapConfig s2, localConfig s2])"
proof -
  let ?P = "[''spring'', ''cloud'', ''config'']"
  obtain s1 where b: "bootstrap_stage E s = (Inr (), s1)"
    using assms(2) by (cases "bootstrap_stage E s") simp
  have l: "local_stage E s1 = (Inr (), s2)"
    using assms(3) b by (cases "local_stage E s1") (simp add: s2_def)
  have "is_object (lookup_path (bootstrapConfig s1) ?P)"
    using bootstrap_stage_object [of E s "()"] b by simp
  then have obj: "is_object (lookup_path (bootstrapConfig s2) ?P)"
    using local_stage_object [of s1 E] l by simp
  have rc: "fst (readCloudConfig E (bootstrapConfig s2)) = Inr (JObj PlainObject [])"
    using obj assms(4) by (rule readCloudConfig_failing_client)
  obtain ops where rc': "readCloudConfig E (bootstrapConfig s2) = (Inr (JObj PlainObject []), ops)"
    using rc by (cases "readCloudConfig E (bootstrapConfig s2)") simp
  have "readConfig E s
          = compose_stage (s2\<lparr>remoteConfig := Some (JObj PlainObject []), io_log := io_log s2 @ ops\<rparr>)"
    by (simp add: readConfig_def b l remote_stage_def rc')
  then show ?thesis
    using rc by (simp add: compose_stage_def generateConfig_def getConfig_def mergeProperties_def Let_def)
qed

theorem remote_failure_degrades_witness:
  "fst (readConfig (example_env remote_enabled_doc (CloudRejects (RemoteFetchError ''unavailable'')))
          (constructor example_options))
     = Inr (Some (mergeProperties [Some example_bootstrapConfig, Some example_localConfig]))
   \<and> remoteConfig (snd (readConfig (example_env remote_enabled_doc
          (CloudRejects (RemoteFetchError ''unavailable''))) (constructor example_options)))
     = Some (JObj PlainObject [])"
  using remote_failure_degrades
    [of "example_env remote_enabled_doc (CloudRejects (RemoteFetchError ''unavailable''))"
        "constructor example_options"]
  by (simp add: example_bootstrap_stage example_local_stage) (simp add: example_env_def)

section \<open>Watcher\<close>

lemma readCloudConfig_ops:
  "\<forall>op \<in> set (snd (readCloudConfig E b)). \<exists>cfg. op = CloudLoad cfg"
  by (auto simp: readCloudConfig_def split: sum.splits option.splits jsval.splits cloud_outcome.splits)

lemma startWatch_fields:
  "emitted (startWatch ival s) = emitted s \<and> io_log (startWatch ival s) = io_log s
   \<and> config (startWatch ival s) = config s \<and> bootstrapConfig (startWatch ival s) = bootstrapConfig s
   \<and> localConfig (startWatch ival s) = localConfig s \<and> remoteConfig (startWatch ival s) = remoteConfig s"
  by (simp add: startWatch_def setTimeout_def clearTimeout_def Let_def split: option.splits)

lemma timer_callback_fields:
  "emitted (timer_callback E s)
     = emitted s @ [case fst (readCloudConfig E (bootstrapConfig s)) of
                      Inr remote \<Rightarrow> CONFIG_REFRESH_EVENT remote
                    | Inl e \<Rightarrow> CONFIG_ERROR_EVENT e]
   \<and> io_log (timer_callback E s) = io_log s @ snd (readCloudConfig E (bootstrapConfig s))
   \<and> config (timer_callback E s) = config s
   \<and> bootstrapConfig (timer_callback E s) = bootstrapConfig s
   \<and> localConfig (timer_callback E s) = localConfig s
   \<and> remoteConfig (timer_callback E s) = remoteConfig s"
  by (cases "readCloudConfig E (bootstrapConfig s)")
     (simp add: timer_callback_def startWatch_fields Let_def)

text \<open>
  Claim C1, as amended. When a pending timer of the watcher fires, the callback runs the
  remote stage alone, on the stored bootstrap configuration: the only operation it can
  perform is the call of the config-server client, and the stored bootstrap, local and
  remote configurations stay as they are. It emits one event, \<^verbatim>\<open>CONFIG_REFRESH\<close> carrying
  the remote PropertySet that the stage yields, or \<^verbatim>\<open>CONFIG_ERROR\<close> carrying its error,
  and the configuration that \<^verbatim>\<open>getConfig()\<close> returns is unchanged.
\<close>

theorem watcher_firing_reads_remote_only:
  assumes "tid \<in> fst ` set (timers s)"
  shows "emitted (fire E tid s)
           = emitted s @ [case fst (readCloudConfig E (bootstrapConfig s)) of
                            Inr remote \<Rightarrow> CONFIG_REFRESH_EVENT remote
                          | Inl e \<Rightarrow> CONFIG_ERROR_EVENT e]
    \<and> getConfig (fire E tid s) = getConfig s
    \<and> bootstrapConfig (fire E tid s) = bootstrapConfig s
    \<and> localConfig (fire E tid s) = localConfig s
    \<and> remoteConfig (fire E tid s) = remoteConfig s
    \<and> io_log (fire E tid s) = io_log s @ snd (readCloudConfig E (bootstrapConfig s))
    \<and> (\<forall>op \<in> set (snd (readCloudConfig E (bootstrapConfig s))). \<exists>cfg. op = CloudLoad cfg)"
  using assms timer_callback_fields [of E "clearTimeout tid s"] readCloudConfig_ops [of E "bootstrapConfig s"]
  by (simp add: fire_def getConfig_def clearTimeout_def)

lemma example_readCloudConfig:
  "readCloudConfig (example_env remote_enabled_doc (example_remote g)) (Some example_bootstrapConfig)
     = (Inr (JObj PlainObject [(''greeting'', JStr g)]),
        [CloudLoad (JObj PlainObject [(''enabled'', JBool True),
           (''profiles'', JObj ArrayObject [(''0'', JStr ''dev'')])])])"
  by (simp add: readCloudConfig_def spring_cloud_config_def example_bootstrapConfig_def
        example_env_def example_remote_def parsePropertiesToObjects_def set_prop_def
        array_index_def is_digit_def)

lemma example_load:
  "load (example_env remote_enabled_doc (example_remote g)) (constructor example_options)
     = (Inr (Some (mergeProperties [Some example_bootstrapConfig, Some example_localConfig,
                                    Some (JObj PlainObject [(''greeting'', JStr g)])])),
        (constructor example_options)
          \<lparr>bootstrapConfig := Some example_bootstrapConfig,
           localConfig := Some example_localConfig,
           remoteConfig := Some (JObj PlainObject [(''greeting'', JStr g)]),
           config := Some (mergeProperties [Some example_bootstrapConfig, Some example_localConfig,
                                    Some (JObj PlainObject [(''greeting'', JStr g)])]),
           io_log := [ReadFile ''conf/bootstrap.yml'', ReadFile ''conf/application.yml'',
                      Exists ''conf/application-dev.yml'',
                      CloudLoad (JObj PlainObject [(''enabled'', JBool True),
                         (''profiles'', JObj ArrayObject [(''0'', JStr ''dev'')])])]\<rparr>)"
proof -
  have "load (example_env remote_enabled_doc (example_remote g)) (constructor example_options)
      = readConfig (example_env remote_enabled_doc (example_remote g)) (constructor example_options)"
    by (simp add: load_def constructor_def example_options_def)
  then show ?thesis
    by (simp add: readConfig_def example_bootstrap_stage example_local_stage remote_stage_def
          example_readCloudConfig compose_stage_def generateConfig_def Let_def)
qed

lemma example_composed:
  "mergeProperties [Some example_bootstrapConfig, Some example_localConfig,
                    Some (JObj PlainObject [(''greeting'', JStr g)])]
     = JObj PlainObject
         [(''spring'', JObj PlainObject [(''cloud'', JObj PlainObject
            [(''config'', JObj PlainObject [(''enabled'', JBool True),
               (''profiles'', JObj ArrayObject [(''0'', JStr ''dev'')])])])]),
          (''server'', JObj PlainObject [(''port'', JNum 8080)]),
          (''greeting'', JStr g)]"
  by (simp add: mergeProperties_def example_bootstrapConfig_def example_localConfig_def
        set_prop_def array_index_def is_digit_def digit_val_def)

theorem watcher_firing_reads_remote_only_witness:
  "emitted (fire (example_env remote_enabled_doc (example_remote ''bye'')) 1
      (startWatch (Some 1000)
         (snd (load (example_env remote_enabled_doc (example_remote ''hi'')) (constructor example_options)))))
     = [CONFIG_REFRESH_EVENT (JObj PlainObject [(''greeting'', JStr ''bye'')])]"
  using watcher_firing_reads_remote_only
    [of 1 "startWatch (Some 1000)
         (snd (load (example_env remote_enabled_doc (example_remote ''hi'')) (constructor example_options)))"
        "example_env remote_enabled_doc (example_remote ''bye'')"]
  by (simp add: example_load)
     (simp add: startWatch_def setTimeout_def clearTimeout_def Let_def
        constructor_def example_readCloudConfig)

text \<open>
  Claim C1 as stated fails. After a successful \<^verbatim>\<open>load()\<close> against a server that answers
  \<^verbatim>\<open>greeting: hi\<close>, the watcher is started and its timer fires when the server answers
  \<^verbatim>\<open>greeting: bye\<close>: the event carries the remote PropertySet \<^verbatim>\<open>{greeting: bye}\<close>, not the
  merge of bootstrap, local and remote, and \<^verbatim>\<open>getConfig()\<close> still returns the configuration
  composed by \<^verbatim>\<open>load()\<close>.
\<close>

theorem watcher_full_pass_counterexample:
  "emitted (fire (example_env remote_enabled_doc (example_remote ''bye'')) 1
      (startWatch (Some 1000)
         (snd (load (example_env remote_enabled_doc (example_remote ''hi'')) (constructor example_options)))))
     = [CONFIG_REFRESH_EVENT (JObj PlainObject [(''greeting'', JStr ''bye'')])]
   \<and> JObj PlainObject [(''greeting'', JStr ''bye'')]
       \<noteq> mergeProperties [Some example_bootstrapConfig, Some example_localConfig,
                            Some (JObj PlainObject [(''greeting'', JStr ''bye'')])]
   \<and> getConfig (fire (example_env remote_enabled_doc (example_remote ''bye'')) 1
      (startWatch (Some 1000)
         (snd (load (example_env remote_enabled_doc (example_remote ''hi'')) (constructor example_options)))))
     = Some (mergeProperties [Some example_bootstrapConfig, Some example_localConfig,
                              Some (JObj PlainObject [(''greeting'', JStr ''hi'')])])
   \<and> mergeProperties [Some example_bootstrapConfig, Some example_localConfig,
                              Some (JObj PlainObject [(''greeting'', JStr ''hi'')])]
       \<noteq> mergeProperties [Some example_bootstrapConfig, Some example_localConfig,
                              Some (JObj PlainObject [(''greeting'', JStr ''bye'')])]"
  by (simp add: example_load example_composed)
     (simp add: fire_def timer_callback_def startWatch_def setTimeout_def clearTimeout_def
        getConfig_def Let_def constructor_def example_readCloudConfig)

text \<open>
  What the callback does about the next timer, for any pending timer and any state of the
  instance: with the watcher marked active the firing installs nothing, and with the
  watcher marked inactive it installs a timer for the current interval and marks the
  watcher active.
\<close>

lemma fire_reschedules_when_inactive:
  assumes "tid \<in> fst ` set (timers s)"
  shows "(w_running (watchConfig s) \<longrightarrow>
            timers (fire E tid s) = filter (\<lambda>t. fst t \<noteq> tid) (timers s))
    \<and> (\<not> w_running (watchConfig s) \<longrightarrow>
            (next_timer s, w_interval (watchConfig s)) \<in> set (timers (fire E tid s))
            \<and> w_running (watchConfig (fire E tid s)))"
proof -
  obtain r ops where rc: "readCloudConfig E (bootstrapConfig s) = (r, ops)"
    by (cases "readCloudConfig E (bootstrapConfig s)")
  show ?thesis
    using assms
    by (auto simp: fire_def timer_callback_def startWatch_def setTimeout_def clearTimeout_def
          Let_def rc split: option.splits)
qed

text \<open>
  Claim C2, evaluated on the code. \<^verbatim>\<open>startWatch(1000)\<close> on a new instance installs timer 1
  and marks the watcher active. When timer 1 fires with the watcher still active, no timer
  is installed. When \<^verbatim>\<open>endWatch()\<close> has been called before timer 1 fires, the firing
  installs timer 2 and marks the watcher active again. The callback tests
  \<^verbatim>\<open>!this._watchConfig.running\<close> where the claim has the flag itself.
\<close>

theorem watcher_reschedule_inverted:
  "timers (startWatch (Some 1000) (constructor example_options)) = [(1, 1000)]
   \<and> w_running (watchConfig (startWatch (Some 1000) (constructor example_options)))
   \<and> timers (fire E 1 (startWatch (Some 1000) (constructor example_options))) = []
   \<and> \<not> w_running (watchConfig (endWatch (startWatch (Some 1000) (constructor example_options))))
   \<and> timers (fire E 1 (endWatch (startWatch (Some 1000) (constructor example_options))))
       = [(2, 1000)]
   \<and> w_running (watchConfig (fire E 1 (endWatch (startWatch (Some 1000) (constructor example_options)))))"
  by (simp add: fire_def timer_callback_def startWatch_def endWatch_def setTimeout_def
        clearTimeout_def Let_def constructor_def split: prod.splits)

end
